theory Spec2Isabelle
  imports Main "HOL-Library.Word" "HOL-Library.AList"
begin

section \<open>JavaScript values\<close>

text \<open>
  The frontend client (\<^verbatim>\<open>src/frontend/src/api/client.ts\<close>) works on values that come out of
  \<^verbatim>\<open>res.json()\<close>, so every payload is a JSON value, and on strings that are sequences of
  UTF-16 code units. Numbers are modelled as integers: the counts and the percentages of the
  payloads are integers, and fractions, infinities and rounding of IEEE doubles are outside
  the model. What the runtime does beyond that is a parameter of the model, the record
  \<open>runtime\<close> below.
\<close>

type_synonym jschar = "16 word"
type_synonym jsstring = "jschar list"

definition lit :: "string \<Rightarrow> jsstring" where
  "lit s = map of_char s"

datatype jsval =
    Undefined
  | Null
  | Bool bool
  | Num int
  | Str jsstring
  | Arr "jsval list"
  | Obj "(jsstring \<times> jsval) list"

datatype jsnum = NaN | Fin int

datatype js_error = TypeError | Error jsstring

definition bind_res :: "'e + 'a \<Rightarrow> ('a \<Rightarrow> 'e + 'b) \<Rightarrow> 'e + 'b" where
  "bind_res m f = (case m of Inl e \<Rightarrow> Inl e | Inr x \<Rightarrow> f x)"

fun sequence :: "('e + 'a) list \<Rightarrow> 'e + 'a list" where
  "sequence [] = Inr []"
| "sequence (m # ms) =
     (case m of Inl e \<Rightarrow> Inl e
      | Inr x \<Rightarrow> (case sequence ms of Inl e \<Rightarrow> Inl e | Inr xs \<Rightarrow> Inr (x # xs)))"

subsection \<open>Truthiness, property access\<close>

fun truthy :: "jsval \<Rightarrow> bool" where
  "truthy Undefined = False"
| "truthy Null = False"
| "truthy (Bool b) = b"
| "truthy (Num n) = (n \<noteq> 0)"
| "truthy (Str s) = (s \<noteq> [])"
| "truthy (Arr xs) = True"
| "truthy (Obj kvs) = True"

text \<open>\<^verbatim>\<open>a || b\<close>\<close>

definition js_or :: "jsval \<Rightarrow> jsval \<Rightarrow> jsval" where
  "js_or a b = (if truthy a then a else b)"

fun nullish :: "jsval \<Rightarrow> bool" where
  "nullish Undefined = True"
| "nullish Null = True"
| "nullish v = False"

fun isArray :: "jsval \<Rightarrow> bool" where
  "isArray (Arr xs) = True"
| "isArray v = False"

text \<open>
  \<^verbatim>\<open>v.k\<close> on a value that is neither \<^verbatim>\<open>undefined\<close> nor \<^verbatim>\<open>null\<close>. Of the property names the
  client reads, the prototypes of strings and arrays hold only \<^verbatim>\<open>length\<close> (and \<^verbatim>\<open>map\<close>, which
  is modelled where it is called); every other name is looked up among the own properties
  of an object and is \<^verbatim>\<open>undefined\<close> elsewhere.
\<close>

fun prop_of :: "jsval \<Rightarrow> jsstring \<Rightarrow> jsval" where
  "prop_of (Obj kvs) k = (case map_of kvs k of None \<Rightarrow> Undefined | Some v \<Rightarrow> v)"
| "prop_of (Str s) k = (if k = lit ''length'' then Num (int (length s)) else Undefined)"
| "prop_of (Arr xs) k = (if k = lit ''length'' then Num (int (length xs)) else Undefined)"
| "prop_of v k = Undefined"

text \<open>\<^verbatim>\<open>v.k\<close>: a \<^verbatim>\<open>TypeError\<close> on \<^verbatim>\<open>undefined\<close> and \<^verbatim>\<open>null\<close>.\<close>

definition get :: "jsval \<Rightarrow> jsstring \<Rightarrow> js_error + jsval" where
  "get v k = (if nullish v then Inl TypeError else Inr (prop_of v k))"

text \<open>\<^verbatim>\<open>v?.k\<close>\<close>

definition opt_prop :: "jsval \<Rightarrow> jsstring \<Rightarrow> jsval" where
  "opt_prop v k = (if nullish v then Undefined else prop_of v k)"

subsection \<open>Strings\<close>

text \<open>White space and line terminators: what \<^verbatim>\<open>\s\<close> matches and \<^verbatim>\<open>trim()\<close> removes.\<close>

definition WhiteSpace :: "jschar \<Rightarrow> bool" where
  "WhiteSpace c \<longleftrightarrow>
     c \<in> {0x9, 0xA, 0xB, 0xC, 0xD, 0x20, 0xA0, 0x1680, 0x2028, 0x2029, 0x202F, 0x205F,
          0x3000, 0xFEFF}
     \<or> (0x2000 \<le> c \<and> c \<le> 0x200A)"

definition trim :: "jsstring \<Rightarrow> jsstring" where
  "trim s = rev (dropWhile WhiteSpace (rev (dropWhile WhiteSpace s)))"

definition startsWith :: "jsstring \<Rightarrow> jsstring \<Rightarrow> bool" where
  "startsWith s p \<longleftrightarrow> take (length p) s = p"

text \<open>\<^verbatim>\<open>s.split(sep)\<close> for a non-empty separator: the occurrences are found left to right.\<close>

fun js_split :: "jsstring \<Rightarrow> jsstring \<Rightarrow> jsstring list" where
  "js_split sep [] = [[]]"
| "js_split sep (c # cs) =
     (if startsWith (c # cs) sep
      then [] # js_split sep (drop (length sep - 1) cs)
      else (case js_split sep cs of [] \<Rightarrow> [[c]] | p # ps \<Rightarrow> (c # p) # ps))"

fun join :: "jsstring \<Rightarrow> jsstring list \<Rightarrow> jsstring" where
  "join sep [] = []"
| "join sep [x] = x"
| "join sep (x # y # ys) = x @ sep @ join sep (y # ys)"

fun show_nat :: "nat \<Rightarrow> jsstring" where
  "show_nat n =
     (if n < 10 then [of_nat (48 + n)]
      else show_nat (n div 10) @ [of_nat (48 + n mod 10)])"

definition show_int :: "int \<Rightarrow> jsstring" where
  "show_int i = (if i < 0 then lit ''-'' @ show_nat (nat (- i)) else show_nat (nat i))"

subsection \<open>Conversions\<close>

text \<open>
  The runtime's part: \<open>StringToNumber\<close> is its conversion of a string to a number, and
  \<open>NumberToString\<close> its print of a number. The model prints an integer itself, as the plain
  decimal numeral, as long as it is a safe integer (of magnitude at most \<open>2\<^sup>5\<^sup>3 - 1\<close>), where
  that is what the runtime prints; beyond, the runtime prints the shortest numeral that
  reads back as the same double, in exponent form from \<open>10\<^sup>2\<^sup>1\<close> on, and the model asks
  \<open>NumberToString\<close>.
\<close>

record runtime =
  StringToNumber :: "jsstring \<Rightarrow> jsnum"
  NumberToString :: "int \<Rightarrow> jsstring"

definition MAX_SAFE_INTEGER :: int where
  "MAX_SAFE_INTEGER = 9007199254740991"

text \<open>
  \<^verbatim>\<open>ToString\<close>, as a template literal applies it. An array is joined with commas, its
  \<^verbatim>\<open>undefined\<close> and \<^verbatim>\<open>null\<close> elements giving the empty string. An object parsed from JSON has
  the inherited \<^verbatim>\<open>toString\<close> unless it has an own property of that name, which is then not
  callable, and the conversion throws.
\<close>

fun ToString :: "runtime \<Rightarrow> jsval \<Rightarrow> js_error + jsstring" where
  "ToString rt Undefined = Inr (lit ''undefined'')"
| "ToString rt Null = Inr (lit ''null'')"
| "ToString rt (Bool b) = Inr (if b then lit ''true'' else lit ''false'')"
| "ToString rt (Num n) =
     Inr (if \<bar>n\<bar> \<le> MAX_SAFE_INTEGER then show_int n else NumberToString rt n)"
| "ToString rt (Str s) = Inr s"
| "ToString rt (Arr xs) =
     bind_res (sequence (map (\<lambda>x. if nullish x then Inr [] else ToString rt x) xs))
       (\<lambda>ss. Inr (join (lit '','') ss))"
| "ToString rt (Obj kvs) =
     (if lit ''toString'' \<in> fst ` set kvs then Inl TypeError
      else Inr (lit ''[object Object]''))"

text \<open>
  \<^verbatim>\<open>ToNumber\<close>. An array is converted through its string; the string of an object without
  an own \<^verbatim>\<open>toString\<close> is no numeral.
\<close>

fun ToNumber :: "runtime \<Rightarrow> jsval \<Rightarrow> js_error + jsnum" where
  "ToNumber rt Undefined = Inr NaN"
| "ToNumber rt Null = Inr (Fin 0)"
| "ToNumber rt (Bool b) = Inr (Fin (if b then 1 else 0))"
| "ToNumber rt (Num n) = Inr (Fin n)"
| "ToNumber rt (Str s) = Inr (StringToNumber rt s)"
| "ToNumber rt (Arr xs) =
     bind_res (ToString rt (Arr xs)) (\<lambda>s. Inr (StringToNumber rt s))"
| "ToNumber rt (Obj kvs) =
     bind_res (ToString rt (Obj kvs)) (\<lambda>s. Inr NaN)"

text \<open>\<^verbatim>\<open>a > n\<close>, \<^verbatim>\<open>a * n\<close>, \<^verbatim>\<open>a + n\<close> and \<^verbatim>\<open>Math.min(n, a)\<close> on numbers.\<close>

fun num_gt :: "jsnum \<Rightarrow> jsnum \<Rightarrow> bool" where
  "num_gt (Fin a) (Fin b) = (a > b)"
| "num_gt a b = False"

fun num_mul :: "jsnum \<Rightarrow> jsnum \<Rightarrow> jsnum" where
  "num_mul (Fin a) (Fin b) = Fin (a * b)"
| "num_mul a b = NaN"

fun num_add :: "jsnum \<Rightarrow> jsnum \<Rightarrow> jsnum" where
  "num_add (Fin a) (Fin b) = Fin (a + b)"
| "num_add a b = NaN"

fun Math_min :: "jsnum \<Rightarrow> jsnum \<Rightarrow> jsnum" where
  "Math_min (Fin a) (Fin b) = Fin (min a b)"
| "Math_min a b = NaN"

definition js_gt :: "runtime \<Rightarrow> jsval \<Rightarrow> int \<Rightarrow> js_error + bool" where
  "js_gt rt a n = bind_res (ToNumber rt a) (\<lambda>x. Inr (num_gt x (Fin n)))"

section \<open>The Result Normalizer\<close>

text \<open>The \<^verbatim>\<open>Result\<close> interface. A field holds what the code stores there, which for a
  loosely shaped payload is any value.\<close>

record confidence_breakdown =
  factChecks :: int
  sourceCredibility :: int
  modelConsensus :: jsval
  technicalFeasibility :: int
  crossMedia :: jsnum

record verdict =
  label :: jsval
  confidence :: jsval
  breakdown :: confidence_breakdown

record quick_point =
  qa_icon :: jsval
  qa_text :: jsval

record evidence_entry =
  ev_title :: jsval
  ev_url :: jsval
  ev_note :: jsval

text \<open>The content of a report section: a literal, or \<^verbatim>\<open>JSON.stringify(v, null, 2)\<close>, which is
  kept as the value it serializes.\<close>

datatype section_content = Literal jsstring | JSON_stringify jsval

record report_section =
  heading :: jsstring
  content :: section_content

record deep_report =
  summary :: jsval
  sections :: "report_section list"

record result =
  result_id :: jsval
  input :: jsval
  domain :: jsval
  language :: jsstring
  verdict :: verdict
  quick_analysis :: "quick_point list"
  evidence :: "evidence_entry list"
  education_checklist :: "jsval list"
  deep_report :: deep_report
  audit :: "(jsstring \<times> jsval) list"
  simple_explanation :: jsstring

subsection \<open>Constants of the code\<close>

definition LF :: jschar where "LF = 0xA"

definition icon_mask :: jsstring where "icon_mask = [0xD83C, 0xDFAD]"
definition icon_globe :: jsstring where "icon_globe = [0xD83C, 0xDF0D]"
definition icon_dna :: jsstring where "icon_dna = [0xD83E, 0xDDEC]"
definition icon_magnifier :: jsstring where "icon_magnifier = [0xD83D, 0xDD0D]"
definition icon_bolt :: jsstring where "icon_bolt = [0x26A1]"

definition palette :: "jsstring list" where
  "palette = [icon_mask, icon_globe, icon_dna, icon_magnifier, icon_bolt]"

text \<open>\<^verbatim>\<open>[...][index]\<close>: \<^verbatim>\<open>undefined\<close> beyond the last element.\<close>

definition palette_at :: "nat \<Rightarrow> jsval" where
  "palette_at index = (if index < length palette then Str (palette ! index) else Undefined)"

definition caution_label :: jsstring where
  "caution_label = [0x26A0, 0xFE0F] @ lit '' Caution''"

subsection \<open>quick_analysis\<close>

text \<open>\<^verbatim>\<open>line.replace(/^[-\<bullet>*]\s*/, '')\<close>, the bullet being U+2022.\<close>

definition strip_bullet :: "jsstring \<Rightarrow> jsstring" where
  "strip_bullet line =
     (case line of
        [] \<Rightarrow> []
      | c # cs \<Rightarrow> if c \<in> {0x2D, 0x2022, 0x2A} then dropWhile WhiteSpace cs else line)"

definition quick_lines :: "jsstring \<Rightarrow> jsstring list" where
  "quick_lines s = filter (\<lambda>line. truthy (Str (trim line))) (js_split [LF] s)"

definition quick_from_string :: "jsstring \<Rightarrow> quick_point list" where
  "quick_from_string s =
     map (\<lambda>(index, line).
           \<lparr>qa_icon = js_or (palette_at index) (Str icon_magnifier),
            qa_text = Str (trim (strip_bullet line))\<rparr>)
         (enumerate 0 (quick_lines s))"

definition quick_from_item :: "nat \<times> jsval \<Rightarrow> js_error + quick_point" where
  "quick_from_item = (\<lambda>(index, item).
     if nullish item then Inl TypeError
     else Inr \<lparr>qa_icon = js_or (js_or (prop_of item (lit ''icon'')) (palette_at index))
                            (Str icon_magnifier),
               qa_text = js_or (prop_of item (lit ''text''))
                            (case item of Str s \<Rightarrow> item | _ \<Rightarrow> Str (lit ''Analysis point''))\<rparr>)"

definition quick_analysis_of :: "jsval \<Rightarrow> js_error + quick_point list" where
  "quick_analysis_of qa =
     (if truthy qa then
        (case qa of
           Str s \<Rightarrow> Inr (quick_from_string s)
         | Arr items \<Rightarrow> sequence (map quick_from_item (enumerate 0 items))
         | _ \<Rightarrow> Inr [])
      else Inr [])"

definition fallback_quick :: "runtime \<Rightarrow> jsval \<Rightarrow> jsval \<Rightarrow> js_error + quick_point list" where
  "fallback_quick rt factChecksFound v =
     bind_res (ToString rt factChecksFound) (\<lambda>n. Inr
       [\<lparr>qa_icon = Str icon_mask,
         qa_text = Str (lit ''Found '' @ n @
                        lit '' professional fact-check sources confirming this analysis.'')\<rparr>,
        \<lparr>qa_icon = Str icon_globe,
         qa_text = Str (lit ''Cross-referenced with international fact-checking databases and expert verification systems.'')\<rparr>,
        \<lparr>qa_icon = Str icon_dna,
         qa_text = js_or (opt_prop v (lit ''summary''))
                     (Str (lit ''AI analysis completed with high confidence based on available evidence.''))\<rparr>])"

subsection \<open>education_checklist\<close>

definition checklist_item :: "runtime \<Rightarrow> jsval \<Rightarrow> js_error + jsval" where
  "checklist_item rt item =
     (case item of
        Str s \<Rightarrow> Inr item
      | _ \<Rightarrow>
        if nullish item then Inl TypeError
        else bind_res (ToString rt (prop_of item (lit ''point''))) (\<lambda>p.
             bind_res (ToString rt (prop_of item (lit ''explanation''))) (\<lambda>e.
             Inr (Str (p @ lit '': '' @ e)))))"

definition fallback_checklist :: "jsval list" where
  "fallback_checklist =
     [Str (lit ''Source credibility verified through professional fact-checking databases''),
      Str (lit ''Cross-referenced with multiple international verification systems''),
      Str (lit ''AI consensus analysis completed with high confidence metrics'')]"

definition education_checklist_of :: "runtime \<Rightarrow> jsval \<Rightarrow> js_error + jsval list" where
  "education_checklist_of rt backendResult =
     (let ec = prop_of backendResult (lit ''education_checklist'');
          cl = prop_of backendResult (lit ''checklist'')
      in if truthy ec \<and> isArray ec then
           (case ec of Arr items \<Rightarrow> Inr items | _ \<Rightarrow> Inr [])
         else if truthy cl \<and> isArray cl then
           (case cl of Arr items \<Rightarrow> sequence (map (checklist_item rt) items) | _ \<Rightarrow> Inr [])
         else Inr fallback_checklist)"

subsection \<open>The breakdown, the evidence, the explanation\<close>

definition breakdown_of ::
  "runtime \<Rightarrow> jsval \<Rightarrow> jsval \<Rightarrow> jsval \<Rightarrow> js_error + confidence_breakdown" where
  "breakdown_of rt factChecksFound evidenceCount v =
     bind_res (js_gt rt factChecksFound 0) (\<lambda>anyFactCheck.
     bind_res (js_gt rt evidenceCount 0) (\<lambda>anyEvidence.
     bind_res (ToNumber rt evidenceCount) (\<lambda>count.
     Inr \<lparr>factChecks = (if anyFactCheck then 90 else 75),
          sourceCredibility = (if anyEvidence then 85 else 70),
          modelConsensus = js_or (opt_prop v (lit ''confidence'')) (Num 50),
          technicalFeasibility = 75,
          crossMedia = Math_min (Fin 90) (num_add (num_mul count (Fin 20)) (Fin 50))\<rparr>)))"

definition evidence_item :: "jsval \<Rightarrow> js_error + evidence_entry" where
  "evidence_item item =
     (if nullish item then Inl TypeError
      else Inr \<lparr>ev_title = js_or (js_or (prop_of item (lit ''source'')) (prop_of item (lit ''title'')))
                             (Str (lit ''Professional Source'')),
                ev_url = js_or (prop_of item (lit ''url'')) (Str (lit ''#'')),
                ev_note = js_or (js_or (prop_of item (lit ''snippet'')) (prop_of item (lit ''note'')))
                            (Str (lit ''Evidence snippet''))\<rparr>)"

text \<open>\<^verbatim>\<open>(backendResult.evidence || []).map(...)\<close>: only an array has \<^verbatim>\<open>map\<close>; on any other
  truthy value the call is a \<^verbatim>\<open>TypeError\<close>.\<close>

definition evidence_of :: "jsval \<Rightarrow> js_error + evidence_entry list" where
  "evidence_of backendResult =
     (case js_or (prop_of backendResult (lit ''evidence'')) (Arr []) of
        Arr items \<Rightarrow> sequence (map evidence_item items)
      | _ \<Rightarrow> Inl TypeError)"

definition simple_explanation_of :: "runtime \<Rightarrow> jsval \<Rightarrow> jsval \<Rightarrow> js_error + jsstring" where
  "simple_explanation_of rt v factChecksFound =
     bind_res (ToString rt (js_or (opt_prop v (lit ''label'')) (Str (lit ''unknown'')))) (\<lambda>l.
     bind_res (ToString rt (js_or (opt_prop v (lit ''confidence'')) (Num 0))) (\<lambda>c.
     bind_res (ToString rt factChecksFound) (\<lambda>n.
     Inr (lit ''This claim was rated as '' @ l @ lit '' with '' @ c @
          lit ''% confidence based on '' @ n @
          lit '' professional fact-check sources and AI analysis.''))))"

text \<open>\<^verbatim>\<open>{...v}\<close>: the own enumerable properties of \<open>v\<close>.\<close>

fun spread :: "jsval \<Rightarrow> (jsstring \<times> jsval) list" where
  "spread (Obj kvs) = kvs"
| "spread (Arr xs) = map (\<lambda>(i, x). (show_nat i, x)) (enumerate 0 xs)"
| "spread (Str s) = map (\<lambda>(i, c). (show_nat i, Str [c])) (enumerate 0 s)"
| "spread v = []"

subsection \<open>transformBackendResult\<close>

text \<open>\<^verbatim>\<open>backendResult.audit?.fact_checks_found || 0\<close> and
  \<^verbatim>\<open>backendResult.evidence?.length || 0\<close>, for a \<open>backendResult\<close> that has properties.\<close>

definition factChecksFound :: "jsval \<Rightarrow> jsval" where
  "factChecksFound backendResult =
     js_or (opt_prop (prop_of backendResult (lit ''audit'')) (lit ''fact_checks_found'')) (Num 0)"

definition evidenceCount :: "jsval \<Rightarrow> jsval" where
  "evidenceCount backendResult =
     js_or (opt_prop (prop_of backendResult (lit ''evidence'')) (lit ''length'')) (Num 0)"

definition transformBackendResult :: "runtime \<Rightarrow> jsval \<Rightarrow> js_error + result" where
  "transformBackendResult rt backendResult =
     (if nullish backendResult then Inl TypeError
      else
        let v = prop_of backendResult (lit ''verdict'') in
        bind_res (quick_analysis_of (prop_of backendResult (lit ''quick_analysis''))) (\<lambda>qa.
        bind_res (if length qa = 0 then fallback_quick rt (factChecksFound backendResult) v
                  else Inr qa) (\<lambda>quickAnalysisArray.
        bind_res (education_checklist_of rt backendResult) (\<lambda>educationChecklistArray.
        bind_res (breakdown_of rt (factChecksFound backendResult)
                    (evidenceCount backendResult) v) (\<lambda>b.
        bind_res (evidence_of backendResult) (\<lambda>ev.
        bind_res (simple_explanation_of rt v (factChecksFound backendResult)) (\<lambda>explanation.
        Inr \<lparr>result_id = js_or (prop_of backendResult (lit ''id'')) (Str (lit ''live-analysis'')),
             input = js_or (prop_of backendResult (lit ''input'')) (Str (lit ''Analysis input'')),
             domain = js_or (prop_of backendResult (lit ''domain'')) (Str (lit ''General'')),
             language = lit ''en'',
             verdict =
               \<lparr>label = js_or (opt_prop v (lit ''label'')) (Str caution_label),
                confidence = js_or (opt_prop v (lit ''confidence'')) (Num 50),
                breakdown = b\<rparr>,
             quick_analysis = quickAnalysisArray,
             evidence = ev,
             education_checklist = educationChecklistArray,
             deep_report =
               \<lparr>summary = js_or (opt_prop v (lit ''summary''))
                            (Str (lit ''Professional misinformation analysis completed.'')),
                sections =
                  [\<lparr>heading = lit ''Methodology'',
                    content = Literal (lit ''Analysis performed using professional fact-checking APIs, AI reasoning, and multi-source verification.'')\<rparr>,
                   \<lparr>heading = lit ''Intelligence Report'',
                    content = JSON_stringify
                      (js_or (prop_of backendResult (lit ''intelligence'')) (Obj []))\<rparr>,
                   \<lparr>heading = lit ''Audit Trail'',
                    content = JSON_stringify
                      (js_or (prop_of backendResult (lit ''audit'')) (Obj []))\<rparr>]\<rparr>,
             audit =
               AList.update (lit ''trace_id'') (prop_of backendResult (lit ''id''))
                 (AList.update (lit ''model_version'') (Str (lit ''CrediScope v1.0''))
                    (spread (prop_of backendResult (lit ''audit'')))),
             simple_explanation = explanation\<rparr>)))))))"

section \<open>The Streaming Ingestor\<close>

text \<open>
  \<^verbatim>\<open>streamAnalysis\<close> talks to its environment: \<^verbatim>\<open>fetch\<close>, the body reader, the text decoder,
  \<^verbatim>\<open>JSON.parse\<close> and the three callbacks. The environment's answers are inputs of the model:
  the outcome of \<^verbatim>\<open>fetch\<close> (a rejection covers every exception raised while the request is
  built and sent), the chunks the reader delivers and how the body ends, the decoder as a
  step function on its own state, and \<^verbatim>\<open>JSON.parse\<close> as a function that gives \<open>None\<close> where it
  throws. The callbacks belong to the caller: the model records each invocation, in order,
  and takes the callbacks to return normally. A body is a finite sequence of chunks and an
  ending; what is said of the read loop after a sequence of chunks holds after every prefix
  of a longer body.
\<close>

datatype event = OnMessage jsval | OnError js_error | OnComplete

type_synonym bytes = "8 word list"

datatype stream_end = Done | Failed js_error

record body_stream =
  chunks :: "bytes list"
  ending :: stream_end

record response =
  ok :: bool
  status :: nat
  text_result :: "jsstring option"
  body :: "body_stream option"

datatype fetch_result = Rejected js_error | Response response

record outcome =
  calls :: "event list"
  thrown :: "js_error option"

definition separator :: jsstring where
  "separator = [LF, LF]"

text \<open>\<^verbatim>\<open>part.replace(/^data:\s*/, "").trim()\<close>\<close>

definition payload_of :: "jsstring \<Rightarrow> jsstring" where
  "payload_of part =
     trim (if startsWith part (lit ''data:'')
           then dropWhile WhiteSpace (drop (length (lit ''data:'')) part)
           else part)"

text \<open>The body of the \<^verbatim>\<open>for\<close> loop: the callbacks one part gives rise to.\<close>

definition handle_part :: "(jsstring \<Rightarrow> jsval option) \<Rightarrow> jsstring \<Rightarrow> event list" where
  "handle_part JSON_parse part =
     (if startsWith part (lit ''data:'') then
        (case JSON_parse (payload_of part) of
           Some parsed \<Rightarrow> [OnMessage parsed]
         | None \<Rightarrow> [])
      else [])"

definition dispatch :: "(jsstring \<Rightarrow> jsval option) \<Rightarrow> jsstring list \<Rightarrow> event list" where
  "dispatch JSON_parse parts = concat (map (handle_part JSON_parse) parts)"

text \<open>One turn of the \<^verbatim>\<open>while\<close> loop on a chunk: the state is the decoder's state, the buffer
  and the callbacks made so far.\<close>

definition read_chunk ::
  "('d \<Rightarrow> bytes \<Rightarrow> jsstring \<times> 'd) \<Rightarrow> (jsstring \<Rightarrow> jsval option) \<Rightarrow>
   'd \<times> jsstring \<times> event list \<Rightarrow> bytes \<Rightarrow> 'd \<times> jsstring \<times> event list" where
  "read_chunk decode JSON_parse = (\<lambda>(d, buffer, trace) value.
     let (text, d') = decode d value;
         parts = js_split separator (buffer @ text)
     in (d', last parts, trace @ dispatch JSON_parse (butlast parts)))"

fun read_loop ::
  "('d \<Rightarrow> bytes \<Rightarrow> jsstring \<times> 'd) \<Rightarrow> (jsstring \<Rightarrow> jsval option) \<Rightarrow>
   'd \<times> jsstring \<times> event list \<Rightarrow> bytes list \<Rightarrow> 'd \<times> jsstring \<times> event list" where
  "read_loop decode JSON_parse st [] = st"
| "read_loop decode JSON_parse st (value # rest) =
     read_loop decode JSON_parse (read_chunk decode JSON_parse st value) rest"

text \<open>The error of a response that is not ok or has no body:
  \<^verbatim>\<open>new Error(`HTTP ${res.status} ${msg}`.trim())\<close>, with \<^verbatim>\<open>msg\<close> empty when \<^verbatim>\<open>res.text()\<close>
  rejects.\<close>

definition http_error :: "response \<Rightarrow> js_error" where
  "http_error res =
     (let msg = (case text_result res of None \<Rightarrow> [] | Some m \<Rightarrow> m)
      in Error (trim (lit ''HTTP '' @ show_nat (status res) @ lit '' '' @ msg)))"

text \<open>The \<^verbatim>\<open>try\<close> block: the callbacks it makes, and the exception that leaves it, if any.\<close>

definition try_block ::
  "('d \<Rightarrow> bytes \<Rightarrow> jsstring \<times> 'd) \<Rightarrow> 'd \<Rightarrow> (jsstring \<Rightarrow> jsval option) \<Rightarrow> bool \<Rightarrow>
   fetch_result \<Rightarrow> event list \<times> js_error option" where
  "try_block decode d0 JSON_parse has_onComplete fr =
     (case fr of
        Rejected e \<Rightarrow> ([], Some e)
      | Response res \<Rightarrow>
          if \<not> ok res \<or> body res = None then ([], Some (http_error res))
          else
            (case read_loop decode JSON_parse (d0, [], []) (chunks (the (body res))) of
               (d, buffer, trace) \<Rightarrow>
                 (case ending (the (body res)) of
                    Failed e \<Rightarrow> (trace, Some e)
                  | Done \<Rightarrow> (trace @ (if has_onComplete then [OnComplete] else []), None))))"

definition streamAnalysis ::
  "('d \<Rightarrow> bytes \<Rightarrow> jsstring \<times> 'd) \<Rightarrow> 'd \<Rightarrow> (jsstring \<Rightarrow> jsval option) \<Rightarrow> bool \<Rightarrow>
   fetch_result \<Rightarrow> outcome" where
  "streamAnalysis decode d0 JSON_parse has_onComplete fr =
     (case try_block decode d0 JSON_parse has_onComplete fr of
        (trace, None) \<Rightarrow> \<lparr>calls = trace, thrown = None\<rparr>
      | (trace, Some err) \<Rightarrow> \<lparr>calls = trace @ [OnError err], thrown = None\<rparr>)"

text \<open>The texts the decoder gives for the chunks, in order.\<close>

fun decode_all :: "('d \<Rightarrow> bytes \<Rightarrow> jsstring \<times> 'd) \<Rightarrow> 'd \<Rightarrow> bytes list \<Rightarrow> jsstring list" where
  "decode_all decode d [] = []"
| "decode_all decode d (value # rest) =
     (case decode d value of (text, d') \<Rightarrow> text # decode_all decode d' rest)"

section \<open>Concrete inputs\<close>

text \<open>
  The payloads below coerce no string to a number and hold no number beyond the safe
  integers, so their results do not depend on the runtime; \<open>no_numeral\<close> stands for it where
  a statement has to be closed.
\<close>

definition no_numeral :: runtime where
  "no_numeral = \<lparr>StringToNumber = (\<lambda>s. NaN), NumberToString = show_int\<rparr>"



definition zero_confidence_payload :: jsval where
  "zero_confidence_payload =
     Obj [(lit ''verdict'', Obj [(lit ''label'', Str (lit ''False'')), (lit ''confidence'', Num 0)])]"

definition no_confidence_payload :: jsval where
  "no_confidence_payload = Obj [(lit ''verdict'', Obj [(lit ''label'', Str (lit ''False''))])]"

definition provided_breakdown :: jsval where
  "provided_breakdown =
     Obj [(lit ''factChecks'', Num 10), (lit ''sourceCredibility'', Num 20),
          (lit ''modelConsensus'', Num 30), (lit ''technicalFeasibility'', Num 40),
          (lit ''crossMedia'', Num 60)]"

definition payload_with_breakdown :: jsval where
  "payload_with_breakdown =
     Obj [(lit ''verdict'',
           Obj [(lit ''label'', Str (lit ''True'')), (lit ''confidence'', Num 82),
                (lit ''breakdown'', provided_breakdown)])]"

definition payload_without_breakdown :: jsval where
  "payload_without_breakdown =
     Obj [(lit ''verdict'',
           Obj [(lit ''label'', Str (lit ''True'')), (lit ''confidence'', Num 82)])]"

text \<open>The claim that the Normalizer leaves a breakdown of the payload's verdict unchanged:
  each of its five scores is the score of the result's breakdown.\<close>

definition breakdown_unchanged :: "jsval \<Rightarrow> result \<Rightarrow> bool" where
  "breakdown_unchanged backendResult r =
     (let given = opt_prop (prop_of backendResult (lit ''verdict'')) (lit ''breakdown'');
          b = breakdown (verdict r)
      in opt_prop given (lit ''factChecks'') = Num (factChecks b)
       \<and> opt_prop given (lit ''sourceCredibility'') = Num (sourceCredibility b)
       \<and> opt_prop given (lit ''modelConsensus'') = modelConsensus b
       \<and> opt_prop given (lit ''technicalFeasibility'') = Num (technicalFeasibility b)
       \<and> (case crossMedia b of
            Fin n \<Rightarrow> opt_prop given (lit ''crossMedia'') = Num n
          | NaN \<Rightarrow> False))"


definition empty_checklist_payload :: jsval where
  "empty_checklist_payload = Obj [(lit ''education_checklist'', Arr [])]"

definition malformed_evidence_payload :: jsval where
  "malformed_evidence_payload = Obj [(lit ''evidence'', Str (lit ''none''))]"

definition six_lines_payload :: jsval where
  "six_lines_payload =
     Obj [(lit ''quick_analysis'',
           Str (lit ''a'' @ [LF] @ lit ''b'' @ [LF] @ lit ''c'' @ [LF] @ lit ''d'' @ [LF] @
                lit ''e'' @ [LF] @ lit ''f''))]"

definition blank_line_payload :: jsval where
  "blank_line_payload =
     Obj [(lit ''quick_analysis'', Str (lit ''a'' @ [LF] @ lit ''  '' @ [LF] @ lit ''b''))]"

definition only_newline_payload :: jsval where
  "only_newline_payload = Obj [(lit ''quick_analysis'', Str [LF])]"

definition bulleted_text :: jsstring where
  "bulleted_text = lit ''- first '' @ [LF, LF, 0x2022] @ lit ''second'' @ [LF] @ lit ''* third''"

definition bulleted_payload :: jsval where
  "bulleted_payload = Obj [(lit ''quick_analysis'', Str bulleted_text)]"

text \<open>The claim's words: icons cycle through the palette by line index, and the lines
  counted are the non-empty ones.\<close>

definition cycling_icon :: "nat \<Rightarrow> jsstring" where
  "cycling_icon index = palette ! (index mod length palette)"

definition nonempty_lines :: "jsstring \<Rightarrow> jsstring list" where
  "nonempty_lines s = filter (\<lambda>line. line \<noteq> []) (js_split [LF] s)"

text \<open>
  For the Streaming Ingestor: a decoder and an encoder for ASCII text, and a \<^verbatim>\<open>JSON.parse\<close>
  that knows the two objects \<^verbatim>\<open>{"a":1}\<close> and \<^verbatim>\<open>{"a":2}\<close> and throws on every other text.
\<close>

definition json_a :: "int \<Rightarrow> jsstring" where
  "json_a n = lit ''{'' @ [0x22] @ lit ''a'' @ [0x22] @ lit '':'' @ show_int n @ lit ''}''"

definition example_parse :: "jsstring \<Rightarrow> jsval option" where
  "example_parse s =
     (if s = json_a 1 then Some (Obj [(lit ''a'', Num 1)])
      else if s = json_a 2 then Some (Obj [(lit ''a'', Num 2)])
      else None)"

definition ascii_decode :: "unit \<Rightarrow> bytes \<Rightarrow> jsstring \<times> unit" where
  "ascii_decode d value = (map ucast value, d)"

definition ascii_bytes :: "jsstring \<Rightarrow> bytes" where
  "ascii_bytes s = map ucast s"

definition two_frames :: "bytes list" where
  "two_frames =
     [ascii_bytes (lit ''data: '' @ json_a 1 @ [LF, LF]),
      ascii_bytes (lit ''data: '' @ json_a 2 @ [LF, LF] @ lit ''extra'')]"

definition heartbeat :: jsstring where
  "heartbeat = lit ''data: :heartbeat''"

definition heartbeat_response :: response where
  "heartbeat_response =
     \<lparr>ok = True, status = 200, text_result = None,
      body = Some \<lparr>chunks = [ascii_bytes (heartbeat @ [LF, LF])], ending = Done\<rparr>\<rparr>"

definition server_error :: response where
  "server_error =
     \<lparr>ok = False, status = 500, text_result = Some (lit ''Internal Server Error''),
      body = Some \<lparr>chunks = [], ending = Done\<rparr>\<rparr>"

definition two_frames_response :: response where
  "two_frames_response =
     \<lparr>ok = True, status = 200, text_result = None,
      body = Some \<lparr>chunks = two_frames, ending = Done\<rparr>\<rparr>"

section \<open>Facts about the model\<close>

lemma bind_res_InrE:
  assumes "bind_res m f = Inr y"
  obtains x where "m = Inr x" and "f x = Inr y"
  using assms by (cases m) (simp_all add: bind_res_def)

lemma sequence_length: "sequence ms = Inr xs \<Longrightarrow> length xs = length ms"
  by (induction ms arbitrary: xs) (auto split: sum.splits)

text \<open>What a returned result says about the blocks of \<^verbatim>\<open>transformBackendResult\<close>.\<close>

lemma transform_Inr:
  assumes "transformBackendResult S p = Inr r"
  shows "\<not> nullish p"
    and "\<exists>qa. quick_analysis_of (prop_of p (lit ''quick_analysis'')) = Inr qa \<and>
           (if length qa = 0 then fallback_quick S (factChecksFound p) (prop_of p (lit ''verdict''))
            else Inr qa) = Inr (quick_analysis r)"
    and "education_checklist_of S p = Inr (education_checklist r)"
    and "breakdown_of S (factChecksFound p) (evidenceCount p) (prop_of p (lit ''verdict''))
           = Inr (breakdown (verdict r))"
    and "evidence_of p = Inr (evidence r)"
    and "simple_explanation_of S (prop_of p (lit ''verdict'')) (factChecksFound p)
           = Inr (simple_explanation r)"
    and "confidence (verdict r) =
           js_or (opt_prop (prop_of p (lit ''verdict'')) (lit ''confidence'')) (Num 50)"
proof -
  show np: "\<not> nullish p"
    using assms unfolding transformBackendResult_def by (cases "nullish p") simp_all
  from assms np obtain qa qa' ecl b ev ex where
    1: "quick_analysis_of (prop_of p (lit ''quick_analysis'')) = Inr qa" and
    2: "(if length qa = 0 then fallback_quick S (factChecksFound p) (prop_of p (lit ''verdict''))
            else Inr qa) = Inr qa'" and
    3: "education_checklist_of S p = Inr ecl" and
    4: "breakdown_of S (factChecksFound p) (evidenceCount p) (prop_of p (lit ''verdict'')) = Inr b" and
    5: "evidence_of p = Inr ev" and
    6: "simple_explanation_of S (prop_of p (lit ''verdict'')) (factChecksFound p) = Inr ex" and
    r: "quick_analysis r = qa'" "education_checklist r = ecl" "breakdown (verdict r) = b"
       "evidence r = ev" "simple_explanation r = ex"
       "confidence (verdict r) =
          js_or (opt_prop (prop_of p (lit ''verdict'')) (lit ''confidence'')) (Num 50)"
    unfolding transformBackendResult_def Let_def
    by (simp only: if_False) (elim bind_res_InrE, fastforce)
  show "\<exists>qa. quick_analysis_of (prop_of p (lit ''quick_analysis'')) = Inr qa \<and>
           (if length qa = 0 then fallback_quick S (factChecksFound p) (prop_of p (lit ''verdict''))
            else Inr qa) = Inr (quick_analysis r)"
    using 1 2 r by blast
  show "education_checklist_of S p = Inr (education_checklist r)" using 3 r by simp
  show "breakdown_of S (factChecksFound p) (evidenceCount p) (prop_of p (lit ''verdict''))
           = Inr (breakdown (verdict r))" using 4 r by simp
  show "evidence_of p = Inr (evidence r)" using 5 r by simp
  show "simple_explanation_of S (prop_of p (lit ''verdict'')) (factChecksFound p)
           = Inr (simple_explanation r)" using 6 r by simp
  show "confidence (verdict r) =
          js_or (opt_prop (prop_of p (lit ''verdict'')) (lit ''confidence'')) (Num 50)"
    using r by simp
qed

subsection \<open>The synthetic breakdown\<close>

lemma evidence_count:
  assumes "evidence_of p = Inr ev"
  shows "evidenceCount p = Num (int (length ev))"
proof (cases "truthy (prop_of p (lit ''evidence''))")
  case True
  with assms obtain items where i: "prop_of p (lit ''evidence'') = Arr items"
    and s: "sequence (map evidence_item items) = Inr ev"
    by (auto simp: evidence_of_def js_or_def split: jsval.splits)
  from s have "length ev = length items" by (auto dest: sequence_length)
  with i show ?thesis
    by (simp add: evidenceCount_def opt_prop_def js_or_def)
next
  case False
  with assms have "ev = []"
    by (simp add: evidence_of_def js_or_def)
  moreover from False have "evidenceCount p = Num 0"
    by (cases "prop_of p (lit ''evidence'')")
       (simp_all add: evidenceCount_def opt_prop_def js_or_def)
  ultimately show ?thesis by simp
qed

lemma breakdown_of_Num:
  assumes "breakdown_of S fc (Num n) v = Inr b"
  shows "\<exists>g. js_gt S fc 0 = Inr g \<and>
           b = \<lparr>factChecks = (if g then 90 else 75),
                sourceCredibility = (if n > 0 then 85 else 70),
                modelConsensus = js_or (opt_prop v (lit ''confidence'')) (Num 50),
                technicalFeasibility = 75,
                crossMedia = Fin (min 90 (n * 20 + 50))\<rparr>"
  using assms unfolding breakdown_of_def
  by (elim bind_res_InrE) (auto simp: js_gt_def bind_res_def)




subsection \<open>The fallback findings\<close>




subsection \<open>A confidence of zero\<close>

lemma zero_percent:
  "lit '' with '' @ show_int 0 @ lit ''% confidence based on '' =
   lit '' with 0% confidence based on ''"
  by (simp add: show_int_def lit_def)

text \<open>
  C10. In a returned result, a payload whose \<^verbatim>\<open>verdict.confidence\<close> is 0 gets
  \<^verbatim>\<open>verdict.confidence\<close> 50 and \<^verbatim>\<open>breakdown.modelConsensus\<close> 50: the 0 is not kept. A payload
  with no \<^verbatim>\<open>verdict.confidence\<close> gets \<^verbatim>\<open>verdict.confidence\<close> 50 as well, while its
  \<^verbatim>\<open>simple_explanation\<close> reads "with 0% confidence".
\<close>

theorem zero_confidence:
  assumes "transformBackendResult S p = Inr r"
  shows "(opt_prop (prop_of p (lit ''verdict'')) (lit ''confidence'') = Num 0 \<longrightarrow>
            confidence (verdict r) = Num 50 \<and>
            modelConsensus (breakdown (verdict r)) = Num 50)
       \<and> (opt_prop (prop_of p (lit ''verdict'')) (lit ''confidence'') = Undefined \<longrightarrow>
            confidence (verdict r) = Num 50 \<and>
            (\<exists>l n. ToString S (js_or (opt_prop (prop_of p (lit ''verdict'')) (lit ''label''))
                                (Str (lit ''unknown''))) = Inr l
                 \<and> ToString S (factChecksFound p) = Inr n
                 \<and> simple_explanation r =
                     lit ''This claim was rated as '' @ l @
                     lit '' with 0% confidence based on '' @ n @
                     lit '' professional fact-check sources and AI analysis.''))"
proof -
  let ?c = "opt_prop (prop_of p (lit ''verdict'')) (lit ''confidence'')"
  have conf: "confidence (verdict r) = js_or ?c (Num 50)"
    by (rule transform_Inr(7)[OF assms])
  have "evidenceCount p = Num (int (length (evidence r)))"
    using transform_Inr(5)[OF assms] by (rule evidence_count)
  with transform_Inr(4)[OF assms]
  have mc: "modelConsensus (breakdown (verdict r)) = js_or ?c (Num 50)"
    using breakdown_of_Num by fastforce
  have ex: "?c = Undefined \<Longrightarrow>
            \<exists>l n. ToString S (js_or (opt_prop (prop_of p (lit ''verdict'')) (lit ''label''))
                                (Str (lit ''unknown''))) = Inr l
                 \<and> ToString S (factChecksFound p) = Inr n
                 \<and> simple_explanation r =
                     lit ''This claim was rated as '' @ l @
                     lit '' with 0% confidence based on '' @ n @
                     lit '' professional fact-check sources and AI analysis.''"
  proof -
    assume u: "?c = Undefined"
    from transform_Inr(6)[OF assms] obtain l c n where
      l: "ToString S (js_or (opt_prop (prop_of p (lit ''verdict'')) (lit ''label''))
                                (Str (lit ''unknown''))) = Inr l" and
      c: "ToString S (js_or ?c (Num 0)) = Inr c" and
      n: "ToString S (factChecksFound p) = Inr n" and
      e: "simple_explanation r = lit ''This claim was rated as '' @ l @ lit '' with '' @ c @
          lit ''% confidence based on '' @ n @
          lit '' professional fact-check sources and AI analysis.''"
      unfolding simple_explanation_of_def by (elim bind_res_InrE) auto
    from c u have "c = show_int 0" by (simp add: js_or_def MAX_SAFE_INTEGER_def)
    with e have "simple_explanation r = lit ''This claim was rated as '' @ l @
          (lit '' with '' @ show_int 0 @ lit ''% confidence based on '') @ n @
          lit '' professional fact-check sources and AI analysis.''"
      by simp
    then have "simple_explanation r = lit ''This claim was rated as '' @ l @
          lit '' with 0% confidence based on '' @ n @
          lit '' professional fact-check sources and AI analysis.''"
      by (simp only: zero_percent)
    with l n show ?thesis by blast
  qed
  show ?thesis
    using conf mc ex by (auto simp: js_or_def)
qed

theorem zero_confidence_witness:
  "(\<exists>r. transformBackendResult no_numeral zero_confidence_payload = Inr r
      \<and> confidence (verdict r) = Num 50
      \<and> modelConsensus (breakdown (verdict r)) = Num 50)
   \<and> (\<exists>r. transformBackendResult no_numeral no_confidence_payload = Inr r
      \<and> confidence (verdict r) = Num 50
      \<and> simple_explanation r =
          lit ''This claim was rated as False with 0% confidence based on 0 professional fact-check sources and AI analysis.'')"
proof -
  have "case transformBackendResult no_numeral zero_confidence_payload of
          Inl e \<Rightarrow> False | Inr r \<Rightarrow> True"
    by code_simp
  then obtain r where r: "transformBackendResult no_numeral zero_confidence_payload = Inr r"
    by (cases "transformBackendResult no_numeral zero_confidence_payload") simp_all
  have z: "opt_prop (prop_of zero_confidence_payload (lit ''verdict'')) (lit ''confidence'') = Num 0"
    by code_simp
  have 1: "\<exists>r. transformBackendResult no_numeral zero_confidence_payload = Inr r
      \<and> confidence (verdict r) = Num 50
      \<and> modelConsensus (breakdown (verdict r)) = Num 50"
    using zero_confidence[OF r] z r by auto
  have "case transformBackendResult no_numeral no_confidence_payload of
          Inl e \<Rightarrow> False | Inr r \<Rightarrow> True"
    by code_simp
  then obtain r' where r': "transformBackendResult no_numeral no_confidence_payload = Inr r'"
    by (cases "transformBackendResult no_numeral no_confidence_payload") simp_all
  have u: "opt_prop (prop_of no_confidence_payload (lit ''verdict'')) (lit ''confidence'') = Undefined"
    by code_simp
  have l: "ToString no_numeral (js_or (opt_prop (prop_of no_confidence_payload (lit ''verdict'')) (lit ''label''))
                                (Str (lit ''unknown''))) = Inr (lit ''False'')"
    by code_simp
  have n: "ToString no_numeral (factChecksFound no_confidence_payload) = Inr (lit ''0'')"
    by code_simp
  have s: "lit ''This claim was rated as '' @ lit ''False'' @
                     lit '' with 0% confidence based on '' @ lit ''0'' @
                     lit '' professional fact-check sources and AI analysis.'' =
          lit ''This claim was rated as False with 0% confidence based on 0 professional fact-check sources and AI analysis.''"
    by code_simp
  have 2: "\<exists>r. transformBackendResult no_numeral no_confidence_payload = Inr r
      \<and> confidence (verdict r) = Num 50
      \<and> simple_explanation r =
          lit ''This claim was rated as False with 0% confidence based on 0 professional fact-check sources and AI analysis.''"
    using zero_confidence[OF r'] u l n s r' by auto
  from 1 2 show ?thesis by blast
qed

subsection \<open>A breakdown in the payload\<close>

text \<open>
  C1 (as stated): a breakdown in the payload's verdict would be left unchanged. The payload
  \<open>payload_with_breakdown\<close> carries the scores 10, 20, 30, 40, 60; the result carries the
  synthetic 75, 70, 82, 75, 50.
\<close>

theorem provided_breakdown_counterexample:
  "case transformBackendResult no_numeral payload_with_breakdown of
     Inl e \<Rightarrow> False
   | Inr r \<Rightarrow> \<not> breakdown_unchanged payload_with_breakdown r
            \<and> breakdown (verdict r) =
                \<lparr>factChecks = 75, sourceCredibility = 70, modelConsensus = Num 82,
                 technicalFeasibility = 75, crossMedia = Fin 50\<rparr>"
  by code_simp

lemma lit_neq [simp]:
  "lit ''verdict'' \<noteq> lit ''audit''" "lit ''verdict'' \<noteq> lit ''evidence''"
  "lit ''verdict'' \<noteq> lit ''quick_analysis''" "lit ''verdict'' \<noteq> lit ''education_checklist''"
  "lit ''verdict'' \<noteq> lit ''checklist''" "lit ''verdict'' \<noteq> lit ''id''"
  "lit ''verdict'' \<noteq> lit ''input''" "lit ''verdict'' \<noteq> lit ''domain''"
  "lit ''verdict'' \<noteq> lit ''intelligence''"
  "lit ''breakdown'' \<noteq> lit ''label''" "lit ''breakdown'' \<noteq> lit ''confidence''"
  "lit ''breakdown'' \<noteq> lit ''summary''"
  by (simp_all add: lit_def)

lemma prop_of_update:
  "k' \<noteq> k \<Longrightarrow> prop_of (Obj (AList.update k v kvs)) k' = prop_of (Obj kvs) k'"
  by (simp add: update_conv')

lemma prop_of_update_same: "prop_of (Obj (AList.update k v kvs)) k = v"
  by (simp add: update_conv')

lemma opt_prop_update:
  "k' \<noteq> k \<Longrightarrow> opt_prop (Obj (AList.update k v kvs)) k' = opt_prop (Obj kvs) k'"
  by (simp add: opt_prop_def update_conv')

text \<open>
  C1 (amended): the Normalizer never reads a breakdown from the payload. Putting any value
  \<open>b\<close> as \<^verbatim>\<open>breakdown\<close> into the verdict object of a payload, new or in place of another,
  leaves the whole outcome unchanged; the breakdown of the result is always the synthetic
  one.
\<close>

theorem breakdown_ignored:
  assumes "map_of kvs (lit ''verdict'') = Some (Obj vkvs)"
  shows "transformBackendResult S
           (Obj (AList.update (lit ''verdict'')
                   (Obj (AList.update (lit ''breakdown'') b vkvs)) kvs))
         = transformBackendResult S (Obj kvs)"
proof -
  let ?p' = "Obj (AList.update (lit ''verdict'') (Obj (AList.update (lit ''breakdown'') b vkvs)) kvs)"
  have v: "prop_of (Obj kvs) (lit ''verdict'') = Obj vkvs" using assms by simp
  have v': "prop_of ?p' (lit ''verdict'') = Obj (AList.update (lit ''breakdown'') b vkvs)"
    by (rule prop_of_update_same)
  have other: "\<And>k. k \<noteq> lit ''verdict'' \<Longrightarrow> prop_of ?p' k = prop_of (Obj kvs) k"
    by (rule prop_of_update) 
  have fc: "factChecksFound ?p' = factChecksFound (Obj kvs)"
    unfolding factChecksFound_def by (simp only: other[OF lit_neq(1)[symmetric]])
  have ec: "evidenceCount ?p' = evidenceCount (Obj kvs)"
    unfolding evidenceCount_def by (simp only: other[OF lit_neq(2)[symmetric]])
  have ev: "evidence_of ?p' = evidence_of (Obj kvs)"
    unfolding evidence_of_def by (simp only: other[OF lit_neq(2)[symmetric]])
  have ed: "education_checklist_of S ?p' = education_checklist_of S (Obj kvs)"
    unfolding education_checklist_of_def
    by (simp only: other[OF lit_neq(4)[symmetric]] other[OF lit_neq(5)[symmetric]])
  have fq: "\<And>f. fallback_quick S f (Obj (AList.update (lit ''breakdown'') b vkvs)) = fallback_quick S f (Obj vkvs)"
    unfolding fallback_quick_def by (simp only: opt_prop_update[OF lit_neq(12)[symmetric]])
  have bd: "\<And>f e. breakdown_of S f e (Obj (AList.update (lit ''breakdown'') b vkvs)) = breakdown_of S f e (Obj vkvs)"
    unfolding breakdown_of_def by (simp only: opt_prop_update[OF lit_neq(11)[symmetric]])
  have se: "\<And>f. simple_explanation_of S (Obj (AList.update (lit ''breakdown'') b vkvs)) f = simple_explanation_of S (Obj vkvs) f"
    unfolding simple_explanation_of_def
    by (simp only: opt_prop_update[OF lit_neq(11)[symmetric]] opt_prop_update[OF lit_neq(10)[symmetric]])
  show ?thesis
    unfolding transformBackendResult_def Let_def
    by (simp only: v v' fc ec ev ed fq bd se nullish.simps if_False
          other[OF lit_neq(1)[symmetric]] other[OF lit_neq(3)[symmetric]]
          other[OF lit_neq(6)[symmetric]] other[OF lit_neq(7)[symmetric]]
          other[OF lit_neq(8)[symmetric]] other[OF lit_neq(9)[symmetric]]
          opt_prop_update[OF lit_neq(10)[symmetric]] opt_prop_update[OF lit_neq(11)[symmetric]]
          opt_prop_update[OF lit_neq(12)[symmetric]])
qed


theorem breakdown_ignored_witness:
  "transformBackendResult no_numeral payload_with_breakdown =
   transformBackendResult no_numeral payload_without_breakdown"
proof -
  have h: "map_of [(lit ''verdict'',
                    Obj [(lit ''label'', Str (lit ''True'')), (lit ''confidence'', Num 82)])]
             (lit ''verdict'')
           = Some (Obj [(lit ''label'', Str (lit ''True'')), (lit ''confidence'', Num 82)])"
    by simp
  have u: "AList.update (lit ''breakdown'') provided_breakdown
             [(lit ''label'', Str (lit ''True'')), (lit ''confidence'', Num 82)]
           = [(lit ''label'', Str (lit ''True'')), (lit ''confidence'', Num 82),
              (lit ''breakdown'', provided_breakdown)]"
    by (simp add: lit_def)
  from breakdown_ignored[OF h, of no_numeral provided_breakdown] show ?thesis
    unfolding payload_with_breakdown_def payload_without_breakdown_def u by simp
qed

subsection \<open>Where the Normalizer falls short of its contract\<close>

lemma quick_analysis_nonempty:
  assumes "transformBackendResult S p = Inr r"
  shows "quick_analysis r \<noteq> []"
proof -
  from transform_Inr(2)[OF assms] obtain qa where
    q: "(if length qa = 0 then fallback_quick S (factChecksFound p) (prop_of p (lit ''verdict''))
         else Inr qa) = Inr (quick_analysis r)"
    by blast
  show ?thesis
  proof (cases "length qa = 0")
    case True
    with q have "fallback_quick S (factChecksFound p) (prop_of p (lit ''verdict''))
                  = Inr (quick_analysis r)" by simp
    then show ?thesis
      unfolding fallback_quick_def by (elim bind_res_InrE) auto
  next
    case False
    with q show ?thesis by auto
  qed
qed

text \<open>
  C2. The \<^verbatim>\<open>quick_analysis\<close> of a result is never empty (\<open>quick_analysis_nonempty\<close>), but
  an empty \<^verbatim>\<open>education_checklist\<close> array of the payload is truthy and an array, so it is
  taken as it is: the result's \<^verbatim>\<open>education_checklist\<close> is empty.
\<close>

theorem empty_checklist_kept:
  "map_sum id education_checklist (transformBackendResult no_numeral empty_checklist_payload)
   = Inr []"
  by code_simp

text \<open>
  C9. A payload whose \<^verbatim>\<open>evidence\<close> is a non-empty string is truthy and has no \<^verbatim>\<open>map\<close>: the
  Normalizer throws a \<^verbatim>\<open>TypeError\<close> instead of returning a result.
\<close>

theorem malformed_evidence_throws:
  "transformBackendResult no_numeral malformed_evidence_payload = Inl TypeError"
  by code_simp

lemma null_item_throws:
  "transformBackendResult no_numeral (Obj [(lit ''quick_analysis'', Arr [Null])]) = Inl TypeError"
  "transformBackendResult no_numeral (Obj [(lit ''checklist'', Arr [Null])]) = Inl TypeError"
  "transformBackendResult no_numeral (Obj [(lit ''evidence'', Arr [Null])]) = Inl TypeError"
  "transformBackendResult no_numeral (Obj [(lit ''evidence'', Obj [])]) = Inl TypeError"
  by code_simp+

subsection \<open>A quick_analysis string\<close>

text \<open>
  C3 (as stated): N non-empty lines give N entries with icons cycling through the palette.
  Of six lines the sixth gets the magnifier, not the first icon of the palette again; a
  line of blanks is non-empty and gives no entry; a string with no non-empty line gives
  the three fallback entries.
\<close>

theorem cycling_icons_counterexample:
  "(case transformBackendResult no_numeral six_lines_payload of
      Inl e \<Rightarrow> False
    | Inr r \<Rightarrow> length (quick_analysis r) = 6
             \<and> qa_icon (quick_analysis r ! 5) = Str icon_magnifier
             \<and> qa_icon (quick_analysis r ! 5) \<noteq> Str (cycling_icon 5))
   \<and> (case transformBackendResult no_numeral blank_line_payload of
      Inl e \<Rightarrow> False
    | Inr r \<Rightarrow> length (nonempty_lines (lit ''a'' @ [LF] @ lit ''  '' @ [LF] @ lit ''b'')) = 3
             \<and> length (quick_analysis r) = 2)
   \<and> (case transformBackendResult no_numeral only_newline_payload of
      Inl e \<Rightarrow> False
    | Inr r \<Rightarrow> length (nonempty_lines [LF]) = 0 \<and> length (quick_analysis r) = 3)"
  by code_simp

lemma trim_Nil_iff: "trim l = [] \<longleftrightarrow> (\<forall>c\<in>set l. WhiteSpace c)"
proof -
  have "trim l = [] \<longleftrightarrow> (\<forall>c\<in>set (dropWhile WhiteSpace l). WhiteSpace c)"
    by (simp add: trim_def dropWhile_eq_Nil_conv)
  also have "\<dots> \<longleftrightarrow> dropWhile WhiteSpace l = []"
  proof
    assume a: "\<forall>c\<in>set (dropWhile WhiteSpace l). WhiteSpace c"
    show "dropWhile WhiteSpace l = []"
    proof (rule ccontr)
      assume n: "dropWhile WhiteSpace l \<noteq> []"
      then have "\<not> WhiteSpace (hd (dropWhile WhiteSpace l))" by (rule hd_dropWhile)
      moreover from n have "hd (dropWhile WhiteSpace l) \<in> set (dropWhile WhiteSpace l)" by simp
      ultimately show False using a by blast
    qed
  qed (auto dest: set_dropWhileD)
  also have "\<dots> \<longleftrightarrow> (\<forall>c\<in>set l. WhiteSpace c)"
    by (simp add: dropWhile_eq_Nil_conv)
  finally show ?thesis .
qed

lemma quick_lines_blank:
  "quick_lines s = filter (\<lambda>line. \<exists>c\<in>set line. \<not> WhiteSpace c) (js_split [LF] s)"
  unfolding quick_lines_def by (rule filter_cong) (auto simp: trim_Nil_iff)

lemma palette_icon:
  "js_or (palette_at i) (Str icon_magnifier) = Str (if i < 5 then palette ! i else icon_magnifier)"
proof (cases "i < 5")
  case True
  then have "i = 0 \<or> i = 1 \<or> i = 2 \<or> i = 3 \<or> i = 4" by arith
  then show ?thesis
    by (auto simp: palette_at_def palette_def js_or_def icon_mask_def icon_globe_def
        icon_dna_def icon_magnifier_def icon_bolt_def)
next
  case False
  then show ?thesis by (simp add: palette_at_def palette_def js_or_def)
qed

lemma quick_from_string_nth:
  assumes "i < length (quick_lines s)"
  shows "quick_from_string s ! i =
           \<lparr>qa_icon = Str (if i < 5 then palette ! i else icon_magnifier),
            qa_text = Str (trim (strip_bullet (quick_lines s ! i)))\<rparr>"
  using assms by (simp add: quick_from_string_def nth_enumerate_eq palette_icon)

lemma fallback_quick_Inr:
  assumes "fallback_quick S fc v = Inr q"
  shows "\<exists>n. ToString S fc = Inr n \<and>
           q = [\<lparr>qa_icon = Str icon_mask,
                 qa_text = Str (lit ''Found '' @ n @
                   lit '' professional fact-check sources confirming this analysis.'')\<rparr>,
                \<lparr>qa_icon = Str icon_globe,
                 qa_text = Str (lit ''Cross-referenced with international fact-checking databases and expert verification systems.'')\<rparr>,
                \<lparr>qa_icon = Str icon_dna,
                 qa_text = js_or (opt_prop v (lit ''summary''))
                   (Str (lit ''AI analysis completed with high confidence based on available evidence.''))\<rparr>]"
  using assms unfolding fallback_quick_def by (elim bind_res_InrE) simp

text \<open>
  C3 (amended): for a payload whose \<^verbatim>\<open>quick_analysis\<close> is a string with N \<ge> 1 lines that
  hold a character other than white space (\<open>quick_lines\<close>, see \<open>quick_lines_blank\<close>), a
  returned result has exactly N entries in line order. The text of entry i is line i
  without one marker (-, U+2022, *) at its very start and the white space after it, then
  trimmed; its icon is the i-th icon of the palette for i < 5 and the magnifier for every
  i \<ge> 5. A string with no such line gets the three fallback findings.
\<close>

theorem string_quick_analysis:
  assumes "prop_of p (lit ''quick_analysis'') = Str s"
    and "transformBackendResult S p = Inr r"
  shows "(quick_lines s \<noteq> [] \<longrightarrow>
            length (quick_analysis r) = length (quick_lines s)
          \<and> (\<forall>i < length (quick_lines s).
               quick_analysis r ! i =
                 \<lparr>qa_icon = Str (if i < 5 then palette ! i else icon_magnifier),
                  qa_text = Str (trim (strip_bullet (quick_lines s ! i)))\<rparr>))
       \<and> (quick_lines s = [] \<longrightarrow>
            (\<exists>n. ToString S (factChecksFound p) = Inr n
               \<and> quick_analysis r =
                   [\<lparr>qa_icon = Str icon_mask,
                     qa_text = Str (lit ''Found '' @ n @
                       lit '' professional fact-check sources confirming this analysis.'')\<rparr>,
                    \<lparr>qa_icon = Str icon_globe,
                     qa_text = Str (lit ''Cross-referenced with international fact-checking databases and expert verification systems.'')\<rparr>,
                    \<lparr>qa_icon = Str icon_dna,
                     qa_text = js_or (opt_prop (prop_of p (lit ''verdict'')) (lit ''summary''))
                       (Str (lit ''AI analysis completed with high confidence based on available evidence.''))\<rparr>]))"
proof -
  from transform_Inr(2)[OF assms(2)] obtain qa where
    a: "quick_analysis_of (prop_of p (lit ''quick_analysis'')) = Inr qa" and
    q: "(if length qa = 0 then fallback_quick S (factChecksFound p) (prop_of p (lit ''verdict''))
         else Inr qa) = Inr (quick_analysis r)"
    by blast
  from a assms(1) have qa: "qa = (if s \<noteq> [] then quick_from_string s else [])"
    by (auto simp: quick_analysis_of_def split: if_splits)
  have e: "quick_lines [] = []"
    by (simp add: quick_lines_def trim_def)
  have len: "length qa = length (quick_lines s)"
    using e by (simp add: qa quick_from_string_def)
  have some: "quick_lines s \<noteq> [] \<longrightarrow>
            length (quick_analysis r) = length (quick_lines s)
          \<and> (\<forall>i < length (quick_lines s).
               quick_analysis r ! i =
                 \<lparr>qa_icon = Str (if i < 5 then palette ! i else icon_magnifier),
                  qa_text = Str (trim (strip_bullet (quick_lines s ! i)))\<rparr>)"
  proof
    assume n: "quick_lines s \<noteq> []"
    with e have "s \<noteq> []" by auto
    with qa have qs: "qa = quick_from_string s" by simp
    from n len have "length qa \<noteq> 0" by simp
    with q have "Inr qa = Inr (quick_analysis r)" by simp
    then have "quick_analysis r = quick_from_string s"
      by (simp add: qs)
    then show "length (quick_analysis r) = length (quick_lines s)
          \<and> (\<forall>i < length (quick_lines s).
               quick_analysis r ! i =
                 \<lparr>qa_icon = Str (if i < 5 then palette ! i else icon_magnifier),
                  qa_text = Str (trim (strip_bullet (quick_lines s ! i)))\<rparr>)"
      using len qs quick_from_string_nth by simp
  qed
  have none: "quick_lines s = [] \<longrightarrow>
            (\<exists>n. ToString S (factChecksFound p) = Inr n
               \<and> quick_analysis r =
                   [\<lparr>qa_icon = Str icon_mask,
                     qa_text = Str (lit ''Found '' @ n @
                       lit '' professional fact-check sources confirming this analysis.'')\<rparr>,
                    \<lparr>qa_icon = Str icon_globe,
                     qa_text = Str (lit ''Cross-referenced with international fact-checking databases and expert verification systems.'')\<rparr>,
                    \<lparr>qa_icon = Str icon_dna,
                     qa_text = js_or (opt_prop (prop_of p (lit ''verdict'')) (lit ''summary''))
                       (Str (lit ''AI analysis completed with high confidence based on available evidence.''))\<rparr>])"
  proof
    assume "quick_lines s = []"
    with len have "length qa = 0" by simp
    with q have "fallback_quick S (factChecksFound p) (prop_of p (lit ''verdict''))
                   = Inr (quick_analysis r)" by simp
    then show "\<exists>n. ToString S (factChecksFound p) = Inr n
               \<and> quick_analysis r =
                   [\<lparr>qa_icon = Str icon_mask,
                     qa_text = Str (lit ''Found '' @ n @
                       lit '' professional fact-check sources confirming this analysis.'')\<rparr>,
                    \<lparr>qa_icon = Str icon_globe,
                     qa_text = Str (lit ''Cross-referenced with international fact-checking databases and expert verification systems.'')\<rparr>,
                    \<lparr>qa_icon = Str icon_dna,
                     qa_text = js_or (opt_prop (prop_of p (lit ''verdict'')) (lit ''summary''))
                       (Str (lit ''AI analysis completed with high confidence based on available evidence.''))\<rparr>]"
      by (rule fallback_quick_Inr)
  qed
  from some none show ?thesis by blast
qed

theorem string_quick_analysis_witness:
  "(\<exists>r. transformBackendResult no_numeral bulleted_payload = Inr r
     \<and> length (quick_analysis r) = 3
     \<and> quick_analysis r ! 0 = \<lparr>qa_icon = Str icon_mask, qa_text = Str (lit ''first'')\<rparr>
     \<and> quick_analysis r ! 1 = \<lparr>qa_icon = Str icon_globe, qa_text = Str (lit ''second'')\<rparr>
     \<and> quick_analysis r ! 2 = \<lparr>qa_icon = Str icon_dna, qa_text = Str (lit ''third'')\<rparr>)
 \<and> (\<exists>r. transformBackendResult no_numeral only_newline_payload = Inr r
     \<and> quick_analysis r =
         [\<lparr>qa_icon = Str icon_mask,
           qa_text = Str (lit ''Found 0 professional fact-check sources confirming this analysis.'')\<rparr>,
          \<lparr>qa_icon = Str icon_globe,
           qa_text = Str (lit ''Cross-referenced with international fact-checking databases and expert verification systems.'')\<rparr>,
          \<lparr>qa_icon = Str icon_dna,
           qa_text = Str (lit ''AI analysis completed with high confidence based on available evidence.'')\<rparr>])"
proof -
  have "case transformBackendResult no_numeral bulleted_payload of
          Inl e \<Rightarrow> False | Inr r \<Rightarrow> True"
    by code_simp
  then obtain r where r: "transformBackendResult no_numeral bulleted_payload = Inr r"
    by (cases "transformBackendResult no_numeral bulleted_payload") simp_all
  have p: "prop_of bulleted_payload (lit ''quick_analysis'') = Str bulleted_text"
    by code_simp
  have l: "quick_lines bulleted_text = [lit ''- first '', 0x2022 # lit ''second'', lit ''* third'']"
    by code_simp
  have t: "trim (strip_bullet (lit ''- first '')) = lit ''first''"
    "trim (strip_bullet (0x2022 # lit ''second'')) = lit ''second''"
    "trim (strip_bullet (lit ''* third'')) = lit ''third''"
    by code_simp+
  have i: "palette ! 0 = icon_mask" "palette ! Suc 0 = icon_globe" "palette ! 2 = icon_dna"
    by (simp_all add: palette_def)
  from string_quick_analysis[OF p r]
  have len: "length (quick_analysis r) = 3"
    and nth: "\<And>i. i < 3 \<Longrightarrow> quick_analysis r ! i =
              \<lparr>qa_icon = Str (if i < 5 then palette ! i else icon_magnifier),
               qa_text = Str (trim (strip_bullet (quick_lines bulleted_text ! i)))\<rparr>"
    by (simp_all add: l)
  from nth[of 0] nth[of 1] nth[of 2] len r
  have 1: "\<exists>r. transformBackendResult no_numeral bulleted_payload = Inr r
     \<and> length (quick_analysis r) = 3
     \<and> quick_analysis r ! 0 = \<lparr>qa_icon = Str icon_mask, qa_text = Str (lit ''first'')\<rparr>
     \<and> quick_analysis r ! 1 = \<lparr>qa_icon = Str icon_globe, qa_text = Str (lit ''second'')\<rparr>
     \<and> quick_analysis r ! 2 = \<lparr>qa_icon = Str icon_dna, qa_text = Str (lit ''third'')\<rparr>"
    by (simp add: l t i)
  have "case transformBackendResult no_numeral only_newline_payload of
          Inl e \<Rightarrow> False | Inr r \<Rightarrow> True"
    by code_simp
  then obtain r' where r': "transformBackendResult no_numeral only_newline_payload = Inr r'"
    by (cases "transformBackendResult no_numeral only_newline_payload") simp_all
  have p': "prop_of only_newline_payload (lit ''quick_analysis'') = Str [LF]"
    by code_simp
  have l': "quick_lines [LF] = []"
    by code_simp
  have n': "ToString no_numeral (factChecksFound only_newline_payload) = Inr (lit ''0'')"
    by code_simp
  have s': "lit ''Found '' @ lit ''0'' @
              lit '' professional fact-check sources confirming this analysis.'' =
            lit ''Found 0 professional fact-check sources confirming this analysis.''"
    by code_simp
  have v': "js_or (opt_prop (prop_of only_newline_payload (lit ''verdict'')) (lit ''summary''))
              (Str (lit ''AI analysis completed with high confidence based on available evidence.''))
            = Str (lit ''AI analysis completed with high confidence based on available evidence.'')"
    by code_simp
  from string_quick_analysis[OF p' r'] l' n' r'
  have 2: "\<exists>r. transformBackendResult no_numeral only_newline_payload = Inr r
     \<and> quick_analysis r =
         [\<lparr>qa_icon = Str icon_mask,
           qa_text = Str (lit ''Found 0 professional fact-check sources confirming this analysis.'')\<rparr>,
          \<lparr>qa_icon = Str icon_globe,
           qa_text = Str (lit ''Cross-referenced with international fact-checking databases and expert verification systems.'')\<rparr>,
          \<lparr>qa_icon = Str icon_dna,
           qa_text = Str (lit ''AI analysis completed with high confidence based on available evidence.'')\<rparr>]"
    by (auto simp: s' v')
  from 1 2 show ?thesis by blast
qed

section \<open>Facts about the Streaming Ingestor\<close>

subsection \<open>Splitting\<close>

lemma js_split_nonempty: "js_split sep s \<noteq> []"
  by (induction sep s rule: js_split.induct) (auto split: list.splits)

lemma startsWith_length:
  assumes "startsWith s p"
  shows "length p \<le> length s"
proof -
  from assms have "length (take (length p) s) = length p"
    by (simp only: startsWith_def)
  then show ?thesis by simp
qed

lemma js_split_short: "length s < length sep \<Longrightarrow> js_split sep s = [s]"
proof (induction sep s rule: js_split.induct)
  case (1 sep)
  then show ?case by simp
next
  case (2 sep c cs)
  from "2.prems" have n: "\<not> startsWith (c # cs) sep"
    using startsWith_length by fastforce
  from "2.prems" have "length cs < length sep" by simp
  with "2.IH"(2)[OF n] have "js_split sep cs = [cs]" by simp
  with n show ?case by simp
qed

lemma js_split_single: "js_split sep s = [p] \<Longrightarrow> p = s"
proof (induction sep s arbitrary: p rule: js_split.induct)
  case (1 sep)
  then show ?case by simp
next
  case (2 sep c cs)
  show ?case
  proof (cases "startsWith (c # cs) sep")
    case True
    with "2.prems" show ?thesis by (simp add: js_split_nonempty)
  next
    case False
    with "2.prems" "2.IH"(2)[OF False] show ?thesis
      by (auto simp: js_split_nonempty split: list.splits)
  qed
qed

lemma startsWith_append:
  "startsWith s p \<Longrightarrow> startsWith (s @ t) p"
  unfolding startsWith_def by (metis append_eq_conv_conj append_assoc append_take_drop_id)

lemma startsWith_append_long:
  "length p \<le> length s \<Longrightarrow> startsWith (s @ t) p = startsWith s p"
  unfolding startsWith_def by simp

lemma js_split_append:
  assumes "sep \<noteq> []"
  shows "js_split sep (a @ b) =
           butlast (js_split sep a) @ js_split sep (last (js_split sep a) @ b)"
  using assms
proof (induction sep a rule: js_split.induct)
  case (1 sep)
  then show ?case by simp
next
  case (2 sep c cs)
  show ?case
  proof (cases "startsWith (c # cs) sep")
    case True
    let ?rest = "drop (length sep - 1) cs"
    from True have len: "length sep \<le> Suc (length cs)"
      using startsWith_length by fastforce
    from True have t: "startsWith (c # cs @ b) sep"
      using startsWith_append[of "c # cs" sep b] by simp
    have d: "drop (length sep - 1) (cs @ b) = ?rest @ b"
      using len by simp
    from "2.IH"(1)[OF True "2.prems"]
    have ih: "js_split sep (?rest @ b) =
                butlast (js_split sep ?rest) @ js_split sep (last (js_split sep ?rest) @ b)" .
    show ?thesis
      using True t d ih by (simp add: js_split_nonempty)
  next
    case False
    obtain p ps where pps: "js_split sep cs = p # ps"
      using js_split_nonempty by (cases "js_split sep cs") auto
    show ?thesis
    proof (cases "ps = []")
      case True
      with pps have "p = cs" by (simp add: js_split_single)
      with False pps True show ?thesis by simp
    next
      case nonempty: False
      have nb: "\<not> startsWith (c # cs @ b) sep"
      proof
        assume sw: "startsWith (c # cs @ b) sep"
        have "length (c # cs) < length sep"
        proof (rule ccontr)
          assume "\<not> length (c # cs) < length sep"
          then have "length sep \<le> length (c # cs)" by simp
          from startsWith_append_long[OF this, of b] sw False show False by simp
        qed
        then have "length cs < length sep" by simp
        then have "js_split sep cs = [cs]" by (rule js_split_short)
        with pps nonempty show False by simp
      qed
      from "2.IH"(2)[OF False "2.prems"] pps nonempty
      have ih: "js_split sep (cs @ b) = p # butlast ps @ js_split sep (last ps @ b)"
        by simp
      show ?thesis
        using False nb pps nonempty ih by simp
    qed
  qed
qed

lemma join_Cons_Cons: "join sep ((c # p) # ps) = c # join sep (p # ps)"
  by (cases ps) simp_all

lemma join_js_split:
  assumes "sep \<noteq> []"
  shows "join sep (js_split sep s) = s"
  using assms
proof (induction sep s rule: js_split.induct)
  case (1 sep)
  then show ?case by simp
next
  case (2 sep c cs)
  show ?case
  proof (cases "startsWith (c # cs) sep")
    case True
    obtain q qs where qqs: "js_split sep (drop (length sep - 1) cs) = q # qs"
      using js_split_nonempty by (cases "js_split sep (drop (length sep - 1) cs)") auto
    from "2.IH"(1)[OF True "2.prems"] qqs
    have ih: "join sep (q # qs) = drop (length sep - 1) cs" by simp
    from "2.prems" have "drop (length sep) (c # cs) = drop (length sep - 1) cs"
      by (cases sep) simp_all
    moreover from True have "take (length sep) (c # cs) = sep" by (simp add: startsWith_def)
    ultimately have "sep @ drop (length sep - 1) cs = c # cs"
      by (metis append_take_drop_id)
    with True qqs ih show ?thesis by simp
  next
    case False
    obtain p ps where pps: "js_split sep cs = p # ps"
      using js_split_nonempty by (cases "js_split sep cs") auto
    with False "2.IH"(2)[OF False "2.prems"] show ?thesis
      by (simp add: join_Cons_Cons)
  qed
qed


subsection \<open>The read loop\<close>

lemma dispatch_append:
  "dispatch P (xs @ ys) = dispatch P xs @ dispatch P ys"
  by (simp add: dispatch_def)

lemma dispatch_messages:
  "e \<in> set (dispatch P parts) \<Longrightarrow> \<exists>v. e = OnMessage v"
  by (auto simp: dispatch_def handle_part_def split: if_splits option.splits)

lemma separator_nonempty: "separator \<noteq> []"
  by (simp add: separator_def)

lemma read_loop_state:
  assumes "read_loop decode P
             (d, last (js_split separator X), dispatch P (butlast (js_split separator X))) reads
           = (d', buffer, trace)"
  shows "buffer = last (js_split separator (X @ concat (decode_all decode d reads)))
       \<and> trace = dispatch P (butlast (js_split separator (X @ concat (decode_all decode d reads))))"
  using assms
proof (induction reads arbitrary: d X)
  case Nil
  then show ?case by simp
next
  case (Cons "value" rest)
  obtain decoded d1 where dec: "decode d value = (decoded, d1)"
    by (cases "decode d value")
  let ?old = "js_split separator X"
  let ?new = "js_split separator (last ?old @ decoded)"
  have split: "js_split separator (X @ decoded) = butlast ?old @ ?new"
    using separator_nonempty by (rule js_split_append)
  have l: "last (js_split separator (X @ decoded)) = last ?new"
    unfolding split by (simp add: js_split_nonempty)
  have b: "butlast (js_split separator (X @ decoded)) = butlast ?old @ butlast ?new"
    unfolding split by (simp add: butlast_append js_split_nonempty)
  have step: "read_chunk decode P (d, last ?old, dispatch P (butlast ?old)) value =
          (d1, last (js_split separator (X @ decoded)),
           dispatch P (butlast (js_split separator (X @ decoded))))"
    by (simp add: read_chunk_def dec Let_def l b dispatch_append)
  from Cons.prems have "read_loop decode P
          (d1, last (js_split separator (X @ decoded)),
           dispatch P (butlast (js_split separator (X @ decoded)))) rest = (d', buffer, trace)"
    by (simp only: read_loop.simps step)
  from Cons.IH[OF this] show ?case
    by (simp add: dec)
qed

lemma read_loop_from_start:
  assumes "read_loop decode P (d0, [], []) reads = (d, buffer, trace)"
  shows "buffer = last (js_split separator (concat (decode_all decode d0 reads)))
       \<and> trace = dispatch P (butlast (js_split separator (concat (decode_all decode d0 reads))))"
proof -
  have "last (js_split separator []) = []" "dispatch P (butlast (js_split separator [])) = []"
    by (simp_all add: dispatch_def)
  with assms have "read_loop decode P
      (d0, last (js_split separator []), dispatch P (butlast (js_split separator []))) reads
      = (d, buffer, trace)" by simp
  from read_loop_state[OF this] show ?thesis by simp
qed

lemma streamAnalysis_Done:
  assumes "ok res" and "body res = Some b" and "ending b = Done"
    and "read_loop decode P (d0, [], []) (chunks b) = (d, buffer, trace)"
  shows "streamAnalysis decode d0 P h (Response res) =
           \<lparr>calls = trace @ (if h then [OnComplete] else []), thrown = None\<rparr>"
  using assms by (simp add: streamAnalysis_def try_block_def)

lemma streamAnalysis_Failed:
  assumes "ok res" and "body res = Some b" and "ending b = Failed e"
    and "read_loop decode P (d0, [], []) (chunks b) = (d, buffer, trace)"
  shows "streamAnalysis decode d0 P h (Response res) =
           \<lparr>calls = trace @ [OnError e], thrown = None\<rparr>"
  using assms by (simp add: streamAnalysis_def try_block_def)

text \<open>
  C6. After any sequence of chunks, the text received so far is split at the blank-line
  delimiter into parts that give the text back when joined with the delimiter; the buffer
  holds the last part, which is kept for the next chunk, and the callbacks made are those
  of all the parts before it, part by part in the order of arrival: an \<open>OnMessage\<close> with
  the parsed value for a part that starts with \<^verbatim>\<open>data:\<close> and parses, nothing for any other.
  It does not matter how the text was cut into chunks. For an ok response whose body
  delivers these chunks, the callbacks of \<^verbatim>\<open>streamAnalysis\<close> are exactly these, followed by
  \<open>OnComplete\<close> (if given) when the body ends, or by \<open>OnError\<close> when a read fails; the last
  part is never dispatched.
\<close>

theorem ingest_in_arrival_order:
  assumes "read_loop decode JSON_parse (d0, [], []) reads = (d, buffer, trace)"
  shows "let received = concat (decode_all decode d0 reads);
             parts = js_split separator received;
             messages = concat (map (handle_part JSON_parse) (butlast parts))
         in join separator parts = received
          \<and> buffer = last parts
          \<and> trace = messages
          \<and> (\<forall>res b. ok res \<and> body res = Some b \<and> chunks b = reads \<and> ending b = Done \<longrightarrow>
                streamAnalysis decode d0 JSON_parse has_onComplete (Response res) =
                  \<lparr>calls = messages @ (if has_onComplete then [OnComplete] else []),
                   thrown = None\<rparr>)
          \<and> (\<forall>res b e. ok res \<and> body res = Some b \<and> chunks b = reads \<and> ending b = Failed e \<longrightarrow>
                streamAnalysis decode d0 JSON_parse has_onComplete (Response res) =
                  \<lparr>calls = messages @ [OnError e], thrown = None\<rparr>)"
proof -
  let ?parts = "js_split separator (concat (decode_all decode d0 reads))"
  have j: "join separator ?parts = concat (decode_all decode d0 reads)"
    using separator_nonempty by (rule join_js_split)
  from read_loop_from_start[OF assms]
  have b: "buffer = last ?parts"
    and t: "trace = concat (map (handle_part JSON_parse) (butlast ?parts))"
    by (simp_all add: dispatch_def)
  have ended: "\<forall>res b. ok res \<and> body res = Some b \<and> chunks b = reads \<and> ending b = Done \<longrightarrow>
                streamAnalysis decode d0 JSON_parse has_onComplete (Response res) =
                  \<lparr>calls = trace @ (if has_onComplete then [OnComplete] else []),
                   thrown = None\<rparr>"
  proof (intro allI impI)
    fix res :: response and b :: body_stream
    assume h: "ok res \<and> body res = Some b \<and> chunks b = reads \<and> ending b = Done"
    then have 1: "ok res" and 2: "body res = Some b" and 3: "ending b = Done"
      and 4: "read_loop decode JSON_parse (d0, [], []) (chunks b) = (d, buffer, trace)"
      using assms by simp_all
    show "streamAnalysis decode d0 JSON_parse has_onComplete (Response res) =
                  \<lparr>calls = trace @ (if has_onComplete then [OnComplete] else []),
                   thrown = None\<rparr>"
      by (rule streamAnalysis_Done[OF 1 2 3 4])
  qed
  have failed: "\<forall>res b e. ok res \<and> body res = Some b \<and> chunks b = reads \<and> ending b = Failed e \<longrightarrow>
                streamAnalysis decode d0 JSON_parse has_onComplete (Response res) =
                  \<lparr>calls = trace @ [OnError e], thrown = None\<rparr>"
  proof (intro allI impI)
    fix res :: response and b :: body_stream and e :: js_error
    assume h: "ok res \<and> body res = Some b \<and> chunks b = reads \<and> ending b = Failed e"
    then have 1: "ok res" and 2: "body res = Some b" and 3: "ending b = Failed e"
      and 4: "read_loop decode JSON_parse (d0, [], []) (chunks b) = (d, buffer, trace)"
      using assms by simp_all
    show "streamAnalysis decode d0 JSON_parse has_onComplete (Response res) =
                  \<lparr>calls = trace @ [OnError e], thrown = None\<rparr>"
      by (rule streamAnalysis_Failed[OF 1 2 3 4])
  qed
  show ?thesis
    unfolding Let_def using j b t ended failed by simp
qed

theorem ingest_in_arrival_order_witness:
  "read_loop ascii_decode example_parse ((), [], []) two_frames =
     ((), lit ''extra'', [OnMessage (Obj [(lit ''a'', Num 1)]), OnMessage (Obj [(lit ''a'', Num 2)])])
 \<and> streamAnalysis ascii_decode () example_parse True (Response two_frames_response) =
     \<lparr>calls = [OnMessage (Obj [(lit ''a'', Num 1)]), OnMessage (Obj [(lit ''a'', Num 2)]),
               OnComplete],
      thrown = None\<rparr>"
proof -
  obtain d buffer trace where
    r: "read_loop ascii_decode example_parse ((), [], []) two_frames = (d, buffer, trace)"
    by (cases "read_loop ascii_decode example_parse ((), [], []) two_frames") auto
  have parts: "js_split separator (concat (decode_all ascii_decode () two_frames)) =
          [lit ''data: '' @ json_a 1, lit ''data: '' @ json_a 2, lit ''extra'']"
    by code_simp
  have h: "concat (map (handle_part example_parse)
             [lit ''data: '' @ json_a 1, lit ''data: '' @ json_a 2]) =
           [OnMessage (Obj [(lit ''a'', Num 1)]), OnMessage (Obj [(lit ''a'', Num 2)])]"
    by code_simp
  have res: "ok two_frames_response \<and>
             body two_frames_response = Some \<lparr>chunks = two_frames, ending = Done\<rparr> \<and>
             chunks \<lparr>chunks = two_frames, ending = Done\<rparr> = two_frames \<and>
             ending \<lparr>chunks = two_frames, ending = Done\<rparr> = Done"
    by (simp add: two_frames_response_def)
  from ingest_in_arrival_order[OF r, of True]
  have "buffer = lit ''extra''"
    and "trace = [OnMessage (Obj [(lit ''a'', Num 1)]), OnMessage (Obj [(lit ''a'', Num 2)])]"
    and "\<forall>res b. ok res \<and> body res = Some b \<and> chunks b = two_frames \<and> ending b = Done \<longrightarrow>
           streamAnalysis ascii_decode () example_parse True (Response res) =
             \<lparr>calls = [OnMessage (Obj [(lit ''a'', Num 1)]), OnMessage (Obj [(lit ''a'', Num 2)])]
                       @ [OnComplete],
              thrown = None\<rparr>"
    unfolding Let_def parts using h by simp_all
  with r res show ?thesis by auto
qed

subsection \<open>Failures\<close>

lemma try_block_bad_response:
  assumes "\<not> ok res \<or> body res = None"
  shows "try_block decode d0 P h (Response res) = ([], Some (http_error res))"
  using assms by (simp add: try_block_def)

lemma streamAnalysis_thrown:
  "thrown (streamAnalysis decode d0 P h fr) = None"
proof (cases "try_block decode d0 P h fr")
  case (Pair trace err)
  then show ?thesis
    by (cases err) (simp_all add: streamAnalysis_def)
qed

text \<open>
  C7. A response that is not ok, or has no body, gives exactly one callback, \<open>OnError\<close> with
  the error \<^verbatim>\<open>HTTP <status> <body text>\<close> (trimmed), and no \<open>OnComplete\<close>. A rejected
  \<^verbatim>\<open>fetch\<close> gives exactly \<open>OnError\<close> with its error. A read that fails gives the messages
  dispatched so far and then \<open>OnError\<close> with its error, and no \<open>OnComplete\<close>. Nothing is
  thrown to the caller in any case.
\<close>

theorem failures_routed_to_onError:
  "(fr = Response res \<and> (\<not> ok res \<or> body res = None) \<longrightarrow>
      streamAnalysis decode d0 JSON_parse has_onComplete fr =
        \<lparr>calls = [OnError (Error (trim (lit ''HTTP '' @ show_nat (status res) @ lit '' '' @
                    (case text_result res of None \<Rightarrow> [] | Some m \<Rightarrow> m))))],
         thrown = None\<rparr>)
 \<and> (fr = Rejected e \<longrightarrow>
      streamAnalysis decode d0 JSON_parse has_onComplete fr =
        \<lparr>calls = [OnError e], thrown = None\<rparr>)
 \<and> (fr = Response res \<and> ok res \<and> body res = Some b \<and> ending b = Failed e \<longrightarrow>
      (\<exists>messages. streamAnalysis decode d0 JSON_parse has_onComplete fr =
                     \<lparr>calls = messages @ [OnError e], thrown = None\<rparr>
                 \<and> (\<forall>m \<in> set messages. \<exists>v. m = OnMessage v)))
 \<and> thrown (streamAnalysis decode d0 JSON_parse has_onComplete fr) = None"
proof (intro conjI impI)
  assume a: "fr = Response res \<and> (\<not> ok res \<or> body res = None)"
  then have fr: "fr = Response res" and bad: "\<not> ok res \<or> body res = None"
    by simp_all
  have "try_block decode d0 JSON_parse has_onComplete fr = ([], Some (http_error res))"
    unfolding fr using bad by (rule try_block_bad_response)
  then show "streamAnalysis decode d0 JSON_parse has_onComplete fr =
        \<lparr>calls = [OnError (Error (trim (lit ''HTTP '' @ show_nat (status res) @ lit '' '' @
                    (case text_result res of None \<Rightarrow> [] | Some m \<Rightarrow> m))))],
         thrown = None\<rparr>"
    by (simp add: streamAnalysis_def http_error_def)
next
  assume "fr = Rejected e"
  then show "streamAnalysis decode d0 JSON_parse has_onComplete fr =
        \<lparr>calls = [OnError e], thrown = None\<rparr>"
    by (simp add: streamAnalysis_def try_block_def)
next
  assume a: "fr = Response res \<and> ok res \<and> body res = Some b \<and> ending b = Failed e"
  obtain d buffer trace where
    r: "read_loop decode JSON_parse (d0, [], []) (chunks b) = (d, buffer, trace)"
    by (cases "read_loop decode JSON_parse (d0, [], []) (chunks b)") auto
  from read_loop_from_start[OF r] have "\<forall>m \<in> set trace. \<exists>v. m = OnMessage v"
    using dispatch_messages by blast
  moreover from a r have "try_block decode d0 JSON_parse has_onComplete fr = (trace, Some e)"
    by (simp add: try_block_def)
  then have "streamAnalysis decode d0 JSON_parse has_onComplete fr =
                     \<lparr>calls = trace @ [OnError e], thrown = None\<rparr>"
    by (simp add: streamAnalysis_def)
  ultimately show "\<exists>messages. streamAnalysis decode d0 JSON_parse has_onComplete fr =
                     \<lparr>calls = messages @ [OnError e], thrown = None\<rparr>
                 \<and> (\<forall>m \<in> set messages. \<exists>v. m = OnMessage v)"
    by blast
next
  show "thrown (streamAnalysis decode d0 JSON_parse has_onComplete fr) = None"
    by (rule streamAnalysis_thrown)
qed

theorem failures_routed_to_onError_witness:
  "streamAnalysis ascii_decode () example_parse True (Response server_error) =
     \<lparr>calls = [OnError (Error (lit ''HTTP 500 Internal Server Error''))], thrown = None\<rparr>"
proof -
  have h: "Response server_error = Response server_error
           \<and> (\<not> ok server_error \<or> body server_error = None)"
    by (simp add: server_error_def)
  have t: "trim (lit ''HTTP '' @ show_nat (status server_error) @ lit '' '' @
             (case text_result server_error of None \<Rightarrow> [] | Some m \<Rightarrow> m))
           = lit ''HTTP 500 Internal Server Error''"
    by code_simp
  from failures_routed_to_onError[of "Response server_error" server_error ascii_decode "()"
         example_parse True] h
  show ?thesis by (simp only: t)
qed

text \<open>
  C8. A part that starts with \<^verbatim>\<open>data:\<close> and whose payload \<^verbatim>\<open>JSON.parse\<close> rejects gives no
  callback at all, neither \<open>OnMessage\<close> nor \<open>OnError\<close>, and the callbacks of the parts
  around it are what they are without it.
\<close>

theorem non_json_frame_ignored:
  assumes "startsWith part (lit ''data:'')"
    and "JSON_parse (payload_of part) = None"
  shows "handle_part JSON_parse part = []
       \<and> dispatch JSON_parse (earlier @ part # later) =
           dispatch JSON_parse earlier @ dispatch JSON_parse later"
  using assms by (simp add: handle_part_def dispatch_def)

theorem non_json_frame_ignored_witness:
  "startsWith heartbeat (lit ''data:'')
   \<and> payload_of heartbeat = lit '':heartbeat''
   \<and> example_parse (payload_of heartbeat) = None
   \<and> handle_part example_parse heartbeat = []
   \<and> calls (streamAnalysis ascii_decode () example_parse True (Response heartbeat_response))
       = [OnComplete]"
proof -
  have s: "startsWith heartbeat (lit ''data:'')" by code_simp
  have p: "payload_of heartbeat = lit '':heartbeat''" by code_simp
  have n: "example_parse (payload_of heartbeat) = None" by code_simp
  have c: "calls (streamAnalysis ascii_decode () example_parse True (Response heartbeat_response))
       = [OnComplete]" by code_simp
  from non_json_frame_ignored[of heartbeat example_parse "[]" "[]", OF s n] s p n c show ?thesis by simp
qed

end
